theory Spec2Isabelle
  imports Complex_Main
begin

section \<open>JavaScript numbers\<close>

text \<open>
  \<^verbatim>\<open>compressImage\<close> computes \<^verbatim>\<open>maxSize / Math.max(img.width, img.height)\<close> and
  \<^verbatim>\<open>img.width * scale\<close> on JavaScript Numbers, which are IEEE 754 binary64 values.
  A finite Number is modelled by the rational it denotes (the two zeros are identified:
  the code never divides by a computed value, so the sign of zero cannot be observed).
\<close>

datatype jsnum = NaN | PosInf | NegInf | Fin rat

text \<open>\<open>ilog2 x\<close> is the binary exponent of a positive rational: \<open>2^e \<le> x < 2^(e+1)\<close>.\<close>

function ilog2 :: "rat \<Rightarrow> int" where
  "ilog2 x = (if x \<le> 0 then 0
              else if 2 \<le> x then ilog2 (x / 2) + 1
              else if x < 1 then ilog2 (x * 2) - 1
              else 0)"
  by pat_completeness auto
termination
proof (relation "measure (\<lambda>x. nat \<lfloor>x\<rfloor> + 2 * nat \<lceil>1 / x\<rceil>)")
  show "wf (measure (\<lambda>x::rat. nat \<lfloor>x\<rfloor> + 2 * nat \<lceil>1 / x\<rceil>))"
    by simp
next
  fix x :: rat
  assume "\<not> x \<le> 0" and x2: "2 \<le> x"
  have a: "\<lfloor>x / 2\<rfloor> < \<lfloor>x\<rfloor>"
  proof -
    have "x / 2 + 1 \<le> x" using x2 by simp
    then have "\<lfloor>x / 2 + 1\<rfloor> \<le> \<lfloor>x\<rfloor>" by (rule floor_mono)
    then show ?thesis by simp
  qed
  have b: "\<lceil>1 / (x / 2)\<rceil> = 1"
    using x2 by (simp add: ceiling_eq_iff)
  have c: "\<lceil>1 / x\<rceil> = 1"
    using x2 by (simp add: ceiling_eq_iff field_simps)
  have d: "0 \<le> \<lfloor>x / 2\<rfloor>" using x2 by simp
  show "(x / 2, x) \<in> measure (\<lambda>x. nat \<lfloor>x\<rfloor> + 2 * nat \<lceil>1 / x\<rceil>)"
    using a b c d x2 by simp
next
  fix x :: rat
  assume x0: "\<not> x \<le> 0" and "\<not> 2 \<le> x" and x1: "x < 1"
  have a: "\<lfloor>x\<rfloor> = 0" using x0 x1 by (simp add: floor_eq_iff)
  have b: "\<lfloor>x * 2\<rfloor> \<le> 1"
  proof -
    have "x * 2 < 2" using x1 by simp
    then have "\<lfloor>x * 2\<rfloor> < 2" by (simp add: floor_less_iff)
    then show ?thesis by simp
  qed
  have c: "2 \<le> \<lceil>1 / x\<rceil>"
  proof -
    have "1 < 1 / x" using x0 x1 by (simp add: field_simps)
    then have "1 < \<lceil>1 / x\<rceil>" by (simp add: less_ceiling_iff)
    then show ?thesis by simp
  qed
  have d: "\<lceil>1 / (x * 2)\<rceil> \<le> \<lceil>1 / x\<rceil> - 1"
  proof -
    have "1 / x \<le> of_int \<lceil>1 / x\<rceil>" by (rule le_of_int_ceiling)
    then have "1 / (x * 2) \<le> of_int \<lceil>1 / x\<rceil> / 2" by simp
    also have "\<dots> \<le> of_int (\<lceil>1 / x\<rceil> - 1)" using c by simp
    finally show ?thesis by (simp only: ceiling_le_iff)
  qed
  have f: "nat \<lfloor>x * 2\<rfloor> \<le> 1"
    using b by linarith
  have g: "nat \<lceil>1 / (x * 2)\<rceil> + 1 \<le> nat \<lceil>1 / x\<rceil>"
    using c d by linarith
  have h: "nat \<lfloor>x\<rfloor> = 0"
    using a by simp
  have "nat \<lfloor>x * 2\<rfloor> + 2 * nat \<lceil>1 / (x * 2)\<rceil> < nat \<lfloor>x\<rfloor> + 2 * nat \<lceil>1 / x\<rceil>"
    using f g h by linarith
  then show "(x * 2, x) \<in> measure (\<lambda>x. nat \<lfloor>x\<rfloor> + 2 * nat \<lceil>1 / x\<rceil>)"
    by (simp only: in_measure)
qed

declare ilog2.simps [simp del]

text \<open>Round to the nearest integer, ties to the even one.\<close>

definition round_half_even :: "rat \<Rightarrow> int" where
  "round_half_even q =
     (let n = \<lfloor>q\<rfloor>; f = q - of_int n
      in if f < 1 / 2 then n
         else if 1 / 2 < f then n + 1
         else if even n then n else n + 1)"

text \<open>
  The unit in the last place of the binary64 format at \<open>x\<close>: 53 significant bits, and
  the fixed spacing \<open>2^-1074\<close> of subnormals below \<open>2^-1022\<close>.
\<close>

definition ulp_exp :: "rat \<Rightarrow> int" where
  "ulp_exp x = max (ilog2 \<bar>x\<bar>) (- 1022) - 52"

definition fl :: "rat \<Rightarrow> rat" where
  "fl x = (let u = 2 powi ulp_exp x in of_int (round_half_even (x / u)) * u)"

text \<open>The unit roundoff of binary64: the relative error of one rounding of a normal number.\<close>

definition eps :: rat where
  "eps = 1 / 2 ^ 53"

text \<open>The result of an arithmetic operation: rounded, and infinite on overflow.\<close>

definition js_round :: "rat \<Rightarrow> jsnum" where
  "js_round x =
     (let r = fl x
      in if 2 ^ 1024 \<le> \<bar>r\<bar> then (if 0 < r then PosInf else NegInf) else Fin r)"


text \<open>
  \<^verbatim>\<open>maxSize / Math.max(img.width, img.height)\<close>: the divisor is the larger of two
  \<^verbatim>\<open>unsigned long\<close> attributes, hence a natural number (never \<open>-0\<close>, never NaN).
\<close>

fun js_div :: "jsnum \<Rightarrow> nat \<Rightarrow> jsnum" where
  "js_div NaN d = NaN"
| "js_div PosInf d = PosInf"
| "js_div NegInf d = NegInf"
| "js_div (Fin x) d =
     (if d = 0 then (if 0 < x then PosInf else if x < 0 then NegInf else NaN)
      else js_round (x / of_nat d))"

text \<open>\<^verbatim>\<open>img.width * scale\<close>: an \<^verbatim>\<open>unsigned long\<close> times a Number.\<close>

fun js_mul :: "nat \<Rightarrow> jsnum \<Rightarrow> jsnum" where
  "js_mul w NaN = NaN"
| "js_mul w PosInf = (if w = 0 then NaN else PosInf)"
| "js_mul w NegInf = (if w = 0 then NaN else NegInf)"
| "js_mul w (Fin x) = js_round (of_nat w * x)"

text \<open>The Number denoted by the literal \<^verbatim>\<open>0.7\<close>.\<close>

definition quality :: jsnum where
  "quality = Fin (fl (7 / 10))"

section \<open>The canvas element\<close>

text \<open>
  Assigning a Number to \<^verbatim>\<open>canvas.width\<close> converts it to the Web IDL type
  \<^verbatim>\<open>unsigned long\<close>: NaN and the infinities become 0, any other value is truncated
  toward zero and reduced modulo \<open>2^32\<close>.
\<close>

definition to_unsigned_long :: "jsnum \<Rightarrow> nat" where
  "to_unsigned_long v =
     (case v of
        Fin x \<Rightarrow> nat ((if 0 \<le> x then \<lfloor>x\<rfloor> else \<lceil>x\<rceil>) mod 2 ^ 32)
      | _ \<Rightarrow> 0)"

text \<open>
  \<^verbatim>\<open>width\<close> and \<^verbatim>\<open>height\<close> reflect content attributes with the defaults 300 and 150:
  a value above \<open>2^31 - 1\<close> is replaced by the default.
\<close>

definition reflect_unsigned_long :: "nat \<Rightarrow> nat \<Rightarrow> nat" where
  "reflect_unsigned_long dflt v = (if v \<le> 2147483647 then v else dflt)"

record canvas =
  width :: nat
  height :: nat

definition createElement_canvas :: canvas where
  "createElement_canvas = \<lparr>width = 300, height = 150\<rparr>"

definition set_width :: "jsnum \<Rightarrow> canvas \<Rightarrow> canvas" where
  "set_width v c = c\<lparr>width := reflect_unsigned_long 300 (to_unsigned_long v)\<rparr>"

definition set_height :: "jsnum \<Rightarrow> canvas \<Rightarrow> canvas" where
  "set_height v c = c\<lparr>height := reflect_unsigned_long 150 (to_unsigned_long v)\<rparr>"

text \<open>
  Lines 129 to 132 of \<^verbatim>\<open>compressImage\<close>, for an image of intrinsic size \<open>w \<times> h\<close>:
  \<^verbatim>\<open>
  const scale = maxSize / Math.max(img.width, img.height);
  const canvas = document.createElement("canvas");
  canvas.width = img.width * scale;
  canvas.height = img.height * scale;
  \<close>
\<close>

definition scale :: "jsnum \<Rightarrow> nat \<Rightarrow> nat \<Rightarrow> jsnum" where
  "scale maxSize w h = js_div maxSize (max w h)"

definition sized_canvas :: "jsnum \<Rightarrow> nat \<Rightarrow> nat \<Rightarrow> canvas" where
  "sized_canvas maxSize w h =
     (let sc = scale maxSize w h;
          c = createElement_canvas;
          c = set_width (js_mul w sc) c;
          c = set_height (js_mul h sc) c
      in c)"

section \<open>Files, blobs and the platform\<close>

text \<open>
  The content of a file is opaque: the caller's bytes, the serialisation of a bitmap of a
  given size in a given format at a given quality, or a text.
\<close>

datatype body = Raw "nat list" | Picture nat nat string jsnum | Text string

record File =
  fname :: string
  ftype :: string
  lastModified :: nat
  fbody :: body

datatype blob = Blob nat nat string jsnum

text \<open>
  What the browser decides: whether the file can be read (\<open>None\<close>: the reader fires
  \<^verbatim>\<open>error\<close>, not \<^verbatim>\<open>load\<close>), whether the data URL decodes as an image and with which
  intrinsic size (\<open>None\<close>: the image fires \<^verbatim>\<open>error\<close>), whether the encoder can serialise
  a non-empty bitmap of a given size, and the clock.
\<close>

record platform =
  readAsDataURL :: "File \<Rightarrow> string option"
  decode :: "string \<Rightarrow> (nat \<times> nat) option"
  encodable :: "nat \<Rightarrow> nat \<Rightarrow> bool"
  now :: nat

text \<open>
  \<^verbatim>\<open>canvas.toBlob(callback, type, quality)\<close> passes \<^verbatim>\<open>null\<close> to the callback when the
  bitmap has no pixels or cannot be serialised.
\<close>

definition toBlob :: "platform \<Rightarrow> canvas \<Rightarrow> string \<Rightarrow> jsnum \<Rightarrow> blob option" where
  "toBlob pf c ty q =
     (if width c = 0 \<or> height c = 0 then None
      else if encodable pf (width c) (height c) then Some (Blob (width c) (height c) ty q)
      else None)"

text \<open>
  \<^verbatim>\<open>new File([blob], name, {type, lastModified})\<close>. A \<^verbatim>\<open>null\<close> part is converted to
  the string \<^verbatim>\<open>"null"\<close>.
\<close>

definition new_File :: "blob option \<Rightarrow> string \<Rightarrow> string \<Rightarrow> nat \<Rightarrow> File" where
  "new_File part n ty lm =
     \<lparr>fname = n, ftype = ty, lastModified = lm,
      fbody = (case part of None \<Rightarrow> Text ''null'' | Some (Blob w h t q) \<Rightarrow> Picture w h t q)\<rparr>"

section \<open>The promise and the event loop\<close>

datatype error = TypeError

datatype pstate = Pending | Fulfilled nat | Rejected error

datatype jsval = Undefined | Ref nat

text \<open>The variables a callback closes over: \<^verbatim>\<open>file\<close> and \<^verbatim>\<open>maxSize\<close>.\<close>

record closure =
  c_file :: nat
  c_maxSize :: jsnum

datatype task =
    ReaderLoad closure string
  | ImgLoad closure nat nat
  | BlobCallback closure "blob option"

datatype call =
    ReadAsDataURL nat
  | SetSrc string
  | CanvasSize nat nat
  | DrawImage nat nat nat nat
  | ToBlob nat nat string jsnum
  | NewFile nat
  | Resolve nat

text \<open>
  The heap holds the File objects (an address is an index), \<open>promise\<close> is the state of the
  returned promise, \<open>queue\<close> the callbacks the browser has still to run, \<open>calls\<close> the
  platform calls made so far.
\<close>

record state =
  heap :: "File list"
  promise :: pstate
  queue :: "task list"
  calls :: "call list"

definition deref :: "state \<Rightarrow> nat \<Rightarrow> File option" where
  "deref s a = (if a < length (heap s) then Some (heap s ! a) else None)"

definition log :: "call \<Rightarrow> state \<Rightarrow> state" where
  "log c s = s\<lparr>calls := calls s @ [c]\<rparr>"

definition enqueue :: "task \<Rightarrow> state \<Rightarrow> state" where
  "enqueue t s = s\<lparr>queue := queue s @ [t]\<rparr>"

text \<open>The resolving function of a promise: only the first call settles it.\<close>

definition resolve :: "nat \<Rightarrow> state \<Rightarrow> state" where
  "resolve v s =
     (let s1 = log (Resolve v) s
      in if promise s1 = Pending then s1\<lparr>promise := Fulfilled v\<rparr> else s1)"

text \<open>
  The three callbacks. \<^verbatim>\<open>reader.onload\<close> creates the image and sets its source;
  \<^verbatim>\<open>img.onload\<close> sizes the canvas, draws and asks for the blob; the callback of
  \<^verbatim>\<open>toBlob\<close> wraps the blob in a File and resolves. No \<^verbatim>\<open>onerror\<close> handler is
  installed anywhere, so a failed read or decode queues nothing. On a fresh canvas
  \<^verbatim>\<open>getContext("2d")\<close> returns a context, and \<^verbatim>\<open>drawImage\<close> with a decoded image
  does not throw, whatever the target size.
\<close>

fun run_task :: "platform \<Rightarrow> task \<Rightarrow> state \<Rightarrow> state" where
  "run_task pf (ReaderLoad cl url) s =
     (let s1 = log (SetSrc url) s
      in case decode pf url of
           None \<Rightarrow> s1
         | Some (w, h) \<Rightarrow> enqueue (ImgLoad cl w h) s1)"
| "run_task pf (ImgLoad cl w h) s =
     (let c = sized_canvas (c_maxSize cl) w h;
          s1 = log (CanvasSize (width c) (height c)) s;
          s2 = log (DrawImage w h (width c) (height c)) s1;
          s3 = log (ToBlob (width c) (height c) ''image/jpeg'' quality) s2
      in enqueue (BlobCallback cl (toBlob pf c ''image/jpeg'' quality)) s3)"
| "run_task pf (BlobCallback cl b) s =
     (case deref s (c_file cl) of
        None \<Rightarrow> s
      | Some f \<Rightarrow>
          (let compressedFile = new_File b (fname f) ''image/jpeg'' (now pf);
               a = length (heap s);
               s1 = log (NewFile a) (s\<lparr>heap := heap s @ [compressedFile]\<rparr>)
           in resolve a s1))"

text \<open>
  The executor of the promise. \<^verbatim>\<open>reader.readAsDataURL(file)\<close> throws a TypeError when
  its argument is not a Blob (here: \<^verbatim>\<open>undefined\<close>, or a reference to no File of the
  heap); the Promise constructor turns an exception of the executor into a rejection.
\<close>

definition executor :: "platform \<Rightarrow> jsval \<Rightarrow> jsnum \<Rightarrow> state \<Rightarrow> error + state" where
  "executor pf file maxSize s =
     (case file of
        Undefined \<Rightarrow> Inl TypeError
      | Ref a \<Rightarrow>
          (case deref s a of
             None \<Rightarrow> Inl TypeError
           | Some f \<Rightarrow>
               (let s1 = log (ReadAsDataURL a) s
                in case readAsDataURL pf f of
                     None \<Rightarrow> Inr s1
                   | Some url \<Rightarrow>
                       Inr (enqueue (ReaderLoad \<lparr>c_file = a, c_maxSize = maxSize\<rparr> url) s1))))"

text \<open>
  \<^verbatim>\<open>compressImage(file, maxSize = 512)\<close> up to its return: the promise is created and
  the executor has run. An omitted \<^verbatim>\<open>maxSize\<close> is \<open>None\<close>.
\<close>

definition default_maxSize :: "jsnum option \<Rightarrow> jsnum" where
  "default_maxSize maxSize_arg = (case maxSize_arg of None \<Rightarrow> Fin 512 | Some m \<Rightarrow> m)"

definition compressImage :: "platform \<Rightarrow> jsval \<Rightarrow> jsnum option \<Rightarrow> File list \<Rightarrow> state" where
  "compressImage pf file maxSize_arg hp =
     (let maxSize = default_maxSize maxSize_arg;
          s0 = \<lparr>heap = hp, promise = Pending, queue = [], calls = []\<rparr>
      in case executor pf file maxSize s0 of
           Inl e \<Rightarrow> s0\<lparr>promise := Rejected e\<rparr>
         | Inr s \<Rightarrow> s)"

fun weight :: "task \<Rightarrow> nat" where
  "weight (ReaderLoad cl url) = 3"
| "weight (ImgLoad cl w h) = 2"
| "weight (BlobCallback cl b) = 1"

text \<open>The browser runs the queued callbacks until none is left.\<close>

function event_loop :: "platform \<Rightarrow> state \<Rightarrow> state" where
  "event_loop pf s =
     (case queue s of
        [] \<Rightarrow> s
      | t # ts \<Rightarrow> event_loop pf (run_task pf t (s\<lparr>queue := ts\<rparr>)))"
  by pat_completeness auto
termination
proof (relation "measure (\<lambda>(pf, s). sum_list (map weight (queue s)))")
  show "wf (measure (\<lambda>(pf :: platform, s). sum_list (map weight (queue s))))"
    by simp
next
  fix pf :: platform and s :: state and t ts
  assume q: "queue s = t # ts"
  have "sum_list (map weight (queue (run_task pf t (s\<lparr>queue := ts\<rparr>))))
          < weight t + sum_list (map weight ts)"
    by (cases t)
      (simp_all add: log_def enqueue_def resolve_def Let_def split: option.splits prod.splits)
  then show "((pf, run_task pf t (s\<lparr>queue := ts\<rparr>)), (pf, s))
          \<in> measure (\<lambda>(pf, s). sum_list (map weight (queue s)))"
    using q by simp
qed

declare event_loop.simps [simp del]

text \<open>A call of \<^verbatim>\<open>compressImage\<close> followed by everything it causes.\<close>

definition settled :: "platform \<Rightarrow> jsval \<Rightarrow> jsnum option \<Rightarrow> File list \<Rightarrow> state" where
  "settled pf file maxSize_arg hp = event_loop pf (compressImage pf file maxSize_arg hp)"


section \<open>What a caller observes\<close>

text \<open>The file the promise was resolved with, and the size of the image it holds.\<close>

definition resolved_file :: "state \<Rightarrow> File option" where
  "resolved_file s = (case promise s of Fulfilled a \<Rightarrow> deref s a | _ \<Rightarrow> None)"

definition dimensions :: "File \<Rightarrow> (nat \<times> nat) option" where
  "dimensions f = (case fbody f of Picture w h t q \<Rightarrow> Some (w, h) | _ \<Rightarrow> None)"

definition resolved_dimensions :: "state \<Rightarrow> (nat \<times> nat) option" where
  "resolved_dimensions s = (case resolved_file s of None \<Rightarrow> None | Some f \<Rightarrow> dimensions f)"

text \<open>The format and quality of every serialisation the call asked for.\<close>

fun encode_requests :: "call list \<Rightarrow> (string \<times> jsnum) list" where
  "encode_requests [] = []"
| "encode_requests (ToBlob cw ch t q # cs) = (t, q) # encode_requests cs"
| "encode_requests (c # cs) = encode_requests cs"

fun is_Resolve :: "call \<Rightarrow> bool" where
  "is_Resolve (Resolve a) = True"
| "is_Resolve _ = False"

text \<open>
  The surface as the specification words it: \<open>scale = maxDimension / max(w, h)\<close> and a
  surface of \<open>(round(w*scale), round(h*scale))\<close>, with rounding to the nearest integer.
\<close>

definition spec_surface :: "int \<Rightarrow> nat \<Rightarrow> nat \<Rightarrow> int \<times> int" where
  "spec_surface maxDimension w h =
     (let sc = (of_int maxDimension :: rat) / of_nat (max w h)
      in (round (of_nat w * sc), round (of_nat h * sc)))"

section \<open>A sample file and a sample browser\<close>

definition example_file :: File where
  "example_file =
     \<lparr>fname = ''receipt.png'', ftype = ''image/png'', lastModified = 5,
      fbody = Raw [137, 80, 78, 71]\<rparr>"

text \<open>
  A browser that reads every file, decodes it as \<open>d\<close> says, serialises every non-empty
  bitmap, and whose clock shows 1700000000000.
\<close>

definition example_platform :: "(nat \<times> nat) option \<Rightarrow> platform" where
  "example_platform d =
     \<lparr>readAsDataURL = (\<lambda>f. Some ''data:image/png;base64,iVBORw==''),
      decode = (\<lambda>u. d),
      encodable = (\<lambda>w h. True),
      now = 1700000000000\<rparr>"

section \<open>Rounding\<close>

lemma floor_rat_numeral [simp]: "\<lfloor>numeral a / numeral b :: rat\<rfloor> = numeral a div numeral b"
  by (metis floor_divide_of_int_eq of_int_numeral)

lemma floor_rat_neg_numeral [simp]: "\<lfloor>- (numeral a / numeral b) :: rat\<rfloor> = - numeral a div numeral b"
  by (metis divide_minus_left floor_divide_of_int_eq of_int_neg_numeral of_int_numeral)

lemmas fl_eval = fl_def ulp_exp_def round_half_even_def ilog2.simps Let_def

lemma two_powi_pos: "0 < (2::rat) powi k"
  by (simp add: zero_less_power_int)

lemma two_powi_Suc: "(2::rat) powi (k + 1) = 2 * 2 powi k"
  by (simp add: power_int_add)

lemma two_powi_pred: "(2::rat) powi (k - 1) = 2 powi k / 2"
  by (simp add: power_int_diff)

lemma ilog2_bounds:
  "0 < x \<Longrightarrow> 2 powi ilog2 x \<le> x \<and> x < 2 powi (ilog2 x + 1)"
proof (induction x rule: ilog2.induct)
  case (1 x)
  have pos: "\<not> x \<le> 0" using "1.prems" by simp
  show ?case
  proof (cases "2 \<le> x")
    case True
    have e: "ilog2 x = ilog2 (x / 2) + 1"
      using pos True by (subst ilog2.simps) simp
    have ih: "2 powi ilog2 (x / 2) \<le> x / 2 \<and> x / 2 < 2 powi (ilog2 (x / 2) + 1)"
      using "1.IH"(1) [OF pos True] "1.prems" by simp
    have p1: "(2::rat) powi (ilog2 (x / 2) + 1) = 2 * 2 powi ilog2 (x / 2)"
      by (rule two_powi_Suc)
    have p2: "(2::rat) powi (ilog2 (x / 2) + 1 + 1) = 2 * 2 powi (ilog2 (x / 2) + 1)"
      by (rule two_powi_Suc)
    show ?thesis
      unfolding e using ih p1 p2 by (intro conjI; linarith)
  next
    case False
    show ?thesis
    proof (cases "x < 1")
      case True
      have e: "ilog2 x = ilog2 (x * 2) - 1"
        using pos False True by (subst ilog2.simps) simp
      have ih: "2 powi ilog2 (x * 2) \<le> x * 2 \<and> x * 2 < 2 powi (ilog2 (x * 2) + 1)"
        using "1.IH"(2) [OF pos False True] "1.prems" by simp
      have p1: "(2::rat) powi (ilog2 (x * 2) - 1) = 2 powi ilog2 (x * 2) / 2"
        by (rule two_powi_pred)
      have p2: "(2::rat) powi (ilog2 (x * 2) + 1) = 2 * 2 powi ilog2 (x * 2)"
        by (rule two_powi_Suc)
      have p3: "ilog2 (x * 2) - 1 + 1 = ilog2 (x * 2)"
        by simp
      show ?thesis
        unfolding e p3 using ih p1 p2 by (intro conjI; linarith)
    next
      case ge1: False
      have e: "ilog2 x = 0"
        using pos False ge1 by (subst ilog2.simps) simp
      show ?thesis
        using False ge1 by (simp add: e)
    qed
  qed
qed

lemma round_half_even_error: "\<bar>of_int (round_half_even q) - q\<bar> \<le> 1 / 2"
proof -
  have "of_int \<lfloor>q\<rfloor> \<le> q" and "q < of_int \<lfloor>q\<rfloor> + 1"
    by linarith+
  then show ?thesis
    by (auto simp add: round_half_even_def Let_def)
qed

lemma fl_abs_error: "\<bar>fl x - x\<bar> \<le> 2 powi ulp_exp x / 2"
proof -
  define u :: rat where "u = 2 powi ulp_exp x"
  have u: "0 < u" by (simp add: u_def two_powi_pos)
  have "fl x - x = (of_int (round_half_even (x / u)) - x / u) * u"
    using u by (simp add: fl_def Let_def u_def [symmetric] field_simps)
  then have "\<bar>fl x - x\<bar> = \<bar>of_int (round_half_even (x / u)) - x / u\<bar> * u"
    using u by (simp add: abs_mult)
  also have "\<dots> \<le> (1 / 2) * u"
    using u round_half_even_error [of "x / u"] by (intro mult_right_mono) simp_all
  finally show ?thesis by (simp add: u_def)
qed

lemma ulp_exp_normal:
  assumes "2 powi (- 1022) \<le> \<bar>x\<bar>"
  shows "ulp_exp x = ilog2 \<bar>x\<bar> - 52"
proof -
  have pos: "0 < \<bar>x\<bar>"
    using assms two_powi_pos [of "- 1022"] by linarith
  have "\<bar>x\<bar> < 2 powi (ilog2 \<bar>x\<bar> + 1)"
    using ilog2_bounds [OF pos] by simp
  then have "(2::rat) powi (- 1022) < 2 powi (ilog2 \<bar>x\<bar> + 1)"
    using assms by linarith
  then have "\<not> ilog2 \<bar>x\<bar> + 1 \<le> - 1022"
    using power_int_increasing [of "ilog2 \<bar>x\<bar> + 1" "- 1022" "2::rat"] by auto
  then show ?thesis by (simp add: ulp_exp_def)
qed

lemma fl_rel_error:
  assumes "2 powi (- 1022) \<le> \<bar>x\<bar>"
  shows "\<bar>fl x - x\<bar> \<le> \<bar>x\<bar> * eps"
proof -
  have pos: "0 < \<bar>x\<bar>"
    using assms two_powi_pos [of "- 1022"] by linarith
  have "(2::rat) powi ulp_exp x = 2 powi ilog2 \<bar>x\<bar> / 2 ^ 52"
    by (simp add: ulp_exp_normal [OF assms] power_int_diff)
  also have "\<dots> \<le> \<bar>x\<bar> / 2 ^ 52"
    using ilog2_bounds [OF pos] by (simp add: divide_right_mono)
  finally have "2 powi ulp_exp x / 2 \<le> \<bar>x\<bar> * eps"
    by (simp add: eps_def)
  then show ?thesis
    using fl_abs_error [of x] by linarith
qed

lemma fl_zero [simp]: "fl 0 = 0"
  by (simp add: fl_def round_half_even_def Let_def)


lemma eps_pos: "0 < eps"
  by (simp add: eps_def)

lemma fl_near:
  assumes "2 powi (- 1022) \<le> x"
  shows "x - x * eps \<le> fl x \<and> fl x \<le> x + x * eps"
proof -
  have "0 < x"
    using assms two_powi_pos [of "- 1022"] by linarith
  then have ax: "\<bar>x\<bar> = x" by simp
  have "\<bar>fl x - x\<bar> \<le> \<bar>x\<bar> * eps"
    using assms by (intro fl_rel_error) (simp only: ax)
  then have "\<bar>fl x - x\<bar> \<le> x * eps"
    by (simp only: ax)
  then show ?thesis
    by (intro conjI; linarith)
qed

lemma tiny_le: "(2::rat) powi (- 1022) \<le> 1 / 2 ^ 33"
proof -
  have "(2::rat) powi (- 1022) \<le> 2 powi (- 33)"
    by (rule power_int_increasing) simp_all
  then show ?thesis
    by (simp add: power_int_minus field_simps)
qed

text \<open>The quotient \<open>m / M\<close> and the product \<open>d * (m / M)\<close> as the code computes them.\<close>

lemma quotient_bounds:
  fixes m :: int and M :: nat
  assumes m: "1 \<le> m" and M: "1 \<le> M" "M < 2 ^ 32"
  defines "x \<equiv> of_int m / of_nat M"
  shows "x - x * eps \<le> fl x" and "fl x \<le> x + x * eps"
    and "1 / 2 ^ 32 \<le> x" and "x \<le> of_int m"
proof -
  have Mpos: "(0::rat) < of_nat M" using M by simp
  have Mle: "(of_nat M :: rat) \<le> 2 ^ 32"
  proof -
    have "(of_nat M :: rat) \<le> of_nat (2 ^ 32)"
      using M by (simp only: of_nat_le_iff)
    then show ?thesis by simp
  qed
  have m1: "(1::rat) \<le> of_int m" using m by simp
  show lo: "1 / 2 ^ 32 \<le> x"
    unfolding x_def using m1 Mpos Mle by (intro frac_le) simp_all
  have "of_int m / of_nat M \<le> (of_int m :: rat) / 1"
    using m1 M by (intro frac_le) simp_all
  then show "x \<le> of_int m" by (simp add: x_def)
  have "(1::rat) / 2 ^ 33 \<le> 1 / 2 ^ 32" by simp
  then have "(2::rat) powi (- 1022) \<le> x"
    using tiny_le lo by linarith
  then show "x - x * eps \<le> fl x" and "fl x \<le> x + x * eps"
    using fl_near [of x] by simp_all
qed

lemma product_bounds:
  fixes m :: int and M d :: nat
  assumes m: "1 \<le> m" "m < 2 ^ 31" and M: "1 \<le> M" "M < 2 ^ 32" and d: "d \<le> M"
  defines "s \<equiv> fl (of_int m / of_nat M)"
  shows "0 \<le> fl (of_nat d * s)" and "fl (of_nat d * s) < of_int m + 1"
    and "d = M \<Longrightarrow> of_int m - 1 < fl (of_nat d * s)"
proof -
  define x :: rat where "x = of_int m / of_nat M"
  define y :: rat where "y = of_nat d * s"
  define k :: rat where "k = of_int m"
  have Mpos: "(0::rat) < of_nat M" using M by simp
  have q: "x - x * eps \<le> s" "s \<le> x + x * eps" "1 / 2 ^ 32 \<le> x"
    using quotient_bounds [OF m(1) M] by (simp_all add: x_def s_def)
  have Mx: "of_nat M * x = k"
    using Mpos by (simp add: x_def k_def)
  have k: "1 \<le> k" "k < 2 ^ 31"
  proof -
    show "1 \<le> k" using m by (simp add: k_def)
    have "(of_int m :: rat) < of_int (2 ^ 31)"
      using m by (simp only: of_int_less_iff)
    then show "k < 2 ^ 31" by (simp add: k_def)
  qed
  have ke: "k * eps \<le> 1 / 4"
    using k by (simp add: eps_def)
  have e4: "eps \<le> 1 / 4"
    by (simp add: eps_def)
  have xe: "x * eps \<le> x * (1 / 4)"
    using q(3) e4 by (intro mult_left_mono) simp_all
  have xpos: "0 < x"
  proof -
    have "(0::rat) < 1 / 2 ^ 32" by simp
    then show ?thesis using q(3) by linarith
  qed
  have s0: "0 < s" and sx: "x / 2 \<le> s"
    using q(1) xe xpos by linarith+
  have Ms_hi: "of_nat M * s \<le> k + k * eps"
  proof -
    have "of_nat M * s \<le> of_nat M * (x + x * eps)"
      using q(2) Mpos by (intro mult_left_mono) simp_all
    also have "\<dots> = of_nat M * x + of_nat M * x * eps"
      by (simp add: algebra_simps)
    finally show ?thesis by (simp only: Mx)
  qed
  have Ms_lo: "k - k * eps \<le> of_nat M * s"
  proof -
    have "of_nat M * (x - x * eps) \<le> of_nat M * s"
      using q(1) Mpos by (intro mult_left_mono) simp_all
    moreover have "of_nat M * (x - x * eps) = of_nat M * x - of_nat M * x * eps"
      by (simp add: algebra_simps)
    ultimately show ?thesis by (simp only: Mx)
  qed
  have y_hi: "y \<le> k + k * eps"
  proof -
    have "of_nat d * s \<le> of_nat M * s"
      using d s0 by (intro mult_right_mono) simp_all
    then show ?thesis using Ms_hi by (simp add: y_def)
  qed
  have y0: "0 \<le> y"
    using s0 by (simp add: y_def)
  have ye: "y * eps \<le> 1 / 2"
  proof -
    have "y * eps \<le> (k + k * eps) * eps"
      using y_hi eps_pos by (intro mult_right_mono) simp_all
    also have "\<dots> = k * eps + (k * eps) * eps"
      by (simp add: algebra_simps)
    also have "\<dots> \<le> 1 / 4 + (1 / 4) * eps"
      using ke eps_pos by (intro add_mono mult_right_mono) simp_all
    also have "\<dots> \<le> 1 / 2"
      using e4 by simp
    finally show ?thesis .
  qed
  have near: "y - y * eps \<le> fl y \<and> fl y \<le> y + y * eps"
  proof (cases "d = 0")
    case True
    then show ?thesis by (simp add: y_def)
  next
    case False
    then have "(1::rat) \<le> of_nat d" by simp
    then have "1 * s \<le> of_nat d * s"
      using s0 by (intro mult_right_mono) simp_all
    then have sy: "s \<le> y"
      by (simp only: y_def mult_1_left)
    have "1 / 2 ^ 33 \<le> y"
      using sy sx q(3) by simp
    then have "(2::rat) powi (- 1022) \<le> y"
      using tiny_le by linarith
    then show ?thesis by (rule fl_near)
  qed
  have ye0: "0 \<le> y * eps"
    using y0 eps_pos by simp
  have fy: "fl (of_nat d * s) = fl y"
    by (simp add: y_def)
  show "0 \<le> fl (of_nat d * s)"
  proof -
    have "y * eps \<le> y * 1"
      using y0 e4 by (intro mult_left_mono) simp_all
    then show ?thesis
      unfolding fy using near by simp
  qed
  show "fl (of_nat d * s) < of_int m + 1"
    unfolding fy k_def [symmetric] using near y_hi ke ye by linarith
  show "of_int m - 1 < fl (of_nat d * s)" if "d = M"
  proof -
    have "k - k * eps \<le> y"
      using Ms_lo that by (simp add: y_def)
    then show ?thesis
      unfolding fy k_def [symmetric] using near ke ye by linarith
  qed
qed

section \<open>The algorithm\<close>

subsection \<open>The canvas size\<close>

lemma js_round_finite: "\<bar>fl x\<bar> < 2 ^ 1024 \<Longrightarrow> js_round x = Fin (fl x)"
  by (simp add: js_round_def Let_def)

lemma canvas_attribute_in_range:
  assumes "0 \<le> x" and "x < 2 ^ 31"
  shows "reflect_unsigned_long dflt (to_unsigned_long (Fin x)) = nat \<lfloor>x\<rfloor>"
proof -
  have lo: "0 \<le> \<lfloor>x\<rfloor>"
    using assms(1) by simp
  have "x < of_int (2 ^ 31)"
    using assms(2) by simp
  then have hi: "\<lfloor>x\<rfloor> < 2 ^ 31"
    by (simp only: floor_less_iff)
  have md: "\<lfloor>x\<rfloor> mod 2 ^ 32 = \<lfloor>x\<rfloor>"
    using lo hi by (intro mod_pos_pos_trivial) simp_all
  have "to_unsigned_long (Fin x) = nat (\<lfloor>x\<rfloor> mod 2 ^ 32)"
    using assms(1) by (simp add: to_unsigned_long_def)
  then have u: "to_unsigned_long (Fin x) = nat \<lfloor>x\<rfloor>"
    by (simp only: md)
  have "\<lfloor>x\<rfloor> < 2147483648"
    using hi by simp
  then have "nat \<lfloor>x\<rfloor> \<le> 2147483647"
    by linarith
  then show ?thesis
    by (simp only: u reflect_unsigned_long_def if_True)
qed

lemma scale_in_range:
  fixes m :: int
  assumes m: "1 \<le> m" "m < 2 ^ 31" and M: "1 \<le> max w h" "w < 2 ^ 32" "h < 2 ^ 32"
  shows "scale (Fin (of_int m)) w h = Fin (fl (of_int m / of_nat (max w h)))"
proof -
  define x :: rat where "x = of_int m / of_nat (max w h)"
  have M': "max w h < 2 ^ 32"
    using M by simp
  have q: "x - x * eps \<le> fl x" "fl x \<le> x + x * eps" "1 / 2 ^ 32 \<le> x" "x \<le> of_int m"
    using quotient_bounds [OF m(1) M(1) M'] by (simp_all add: x_def)
  have xpos: "0 < x"
  proof -
    have "(0::rat) < 1 / 2 ^ 32" by simp
    then show ?thesis using q(3) by linarith
  qed
  have e1: "x * eps \<le> x * 1"
    using xpos by (intro mult_left_mono) (simp_all add: eps_def)
  have "(of_int m :: rat) < of_int (2 ^ 31)"
    using m by (simp only: of_int_less_iff)
  then have mr: "(of_int m :: rat) < 2 ^ 31" by simp
  have "0 \<le> fl x" and "fl x \<le> 2 * of_int m"
    using q e1 xpos by linarith+
  then have "\<bar>fl x\<bar> < 2 ^ 32"
    using mr by simp
  also have "(2::rat) ^ 32 < 2 ^ 1024"
    by (rule power_strict_increasing) simp_all
  finally have r: "js_round x = Fin (fl x)"
    by (rule js_round_finite)
  have "max w h \<noteq> 0"
    using M(1) by linarith
  then have "scale (Fin (of_int m)) w h = js_round x"
    by (simp only: scale_def js_div.simps x_def if_False)
  then show ?thesis
    using r unfolding x_def by simp
qed

lemma canvas_side_in_range:
  fixes m :: int
  assumes m: "1 \<le> m" "m < 2 ^ 31" and M: "1 \<le> M" "M < 2 ^ 32" and d: "d \<le> M"
  shows "reflect_unsigned_long dflt (to_unsigned_long (js_mul d (Fin (fl (of_int m / of_nat M)))))
           = nat \<lfloor>fl (of_nat d * fl (of_int m / of_nat M))\<rfloor>"
proof -
  define r :: rat where "r = fl (of_nat d * fl (of_int m / of_nat M))"
  have b: "0 \<le> r" "r < of_int m + 1"
    using product_bounds(1,2) [OF m M d] by (simp_all add: r_def)
  have "m + 1 \<le> 2 ^ 31"
    using m by simp
  then have "(of_int (m + 1) :: rat) \<le> of_int (2 ^ 31)"
    by (simp only: of_int_le_iff)
  then have "(of_int m :: rat) + 1 \<le> 2 ^ 31"
    by simp
  then have r31: "r < 2 ^ 31"
    using b by linarith
  also have "(2::rat) ^ 31 < 2 ^ 1024"
    by (rule power_strict_increasing) simp_all
  finally have "\<bar>r\<bar> < 2 ^ 1024"
    using b by simp
  then have "js_mul d (Fin (fl (of_int m / of_nat M))) = Fin r"
    unfolding r_def by (simp add: js_round_finite)
  then show ?thesis
    using canvas_attribute_in_range [OF b(1) r31] by (simp add: r_def)
qed

lemma sized_canvas_in_range:
  fixes m :: int
  assumes m: "1 \<le> m" "m < 2 ^ 31" and M: "1 \<le> max w h" "w < 2 ^ 32" "h < 2 ^ 32"
  shows "sized_canvas (Fin (of_int m)) w h =
           \<lparr>width = nat \<lfloor>fl (of_nat w * fl (of_int m / of_nat (max w h)))\<rfloor>,
            height = nat \<lfloor>fl (of_nat h * fl (of_int m / of_nat (max w h)))\<rfloor>\<rparr>"
proof -
  have M': "max w h < 2 ^ 32"
    using M by simp
  have w: "w \<le> max w h" and h: "h \<le> max w h"
    by simp_all
  show ?thesis
    by (simp only: sized_canvas_def Let_def scale_in_range [OF m M] set_width_def set_height_def
        createElement_canvas_def canvas_side_in_range [OF m M(1) M' w]
        canvas_side_in_range [OF m M(1) M' h]) simp
qed

lemma sized_canvas_zero: "sized_canvas (Fin 0) w h = \<lparr>width = 0, height = 0\<rparr>"
proof -
  have r0: "js_round 0 = Fin 0"
    by (simp add: js_round_def)
  have "scale (Fin 0) w h = (if max w h = 0 then NaN else Fin 0)"
    by (simp add: scale_def r0)
  then show ?thesis
    by (simp add: sized_canvas_def Let_def set_width_def set_height_def createElement_canvas_def
        to_unsigned_long_def reflect_unsigned_long_def r0)
qed

subsection \<open>Runs of the event loop\<close>

lemma event_loop_Nil:
  "event_loop pf \<lparr>heap = hp, promise = p, queue = [], calls = cs\<rparr>
     = \<lparr>heap = hp, promise = p, queue = [], calls = cs\<rparr>"
  by (subst event_loop.simps) simp

lemma event_loop_Cons:
  "event_loop pf \<lparr>heap = hp, promise = p, queue = t # ts, calls = cs\<rparr>
     = event_loop pf (run_task pf t \<lparr>heap = hp, promise = p, queue = ts, calls = cs\<rparr>)"
  by (subst event_loop.simps) simp

lemmas run_defs =
  settled_def compressImage_def executor_def deref_def log_def enqueue_def resolve_def
  Let_def event_loop_Nil event_loop_Cons

lemma settled_not_a_file:
  assumes "file = Undefined \<or> (\<exists>a. file = Ref a \<and> length hp \<le> a)"
  shows "settled pf file ms hp
           = \<lparr>heap = hp, promise = Rejected TypeError, queue = [], calls = []\<rparr>"
  using assms by (auto simp add: run_defs)

lemma settled_unreadable:
  assumes "a < length hp" and "readAsDataURL pf (hp ! a) = None"
  shows "settled pf (Ref a) ms hp
           = \<lparr>heap = hp, promise = Pending, queue = [], calls = [ReadAsDataURL a]\<rparr>"
  using assms by (simp add: run_defs)

lemma settled_undecodable:
  assumes "a < length hp" and "readAsDataURL pf (hp ! a) = Some url" and "decode pf url = None"
  shows "settled pf (Ref a) ms hp
           = \<lparr>heap = hp, promise = Pending, queue = [],
              calls = [ReadAsDataURL a, SetSrc url]\<rparr>"
  using assms by (simp add: run_defs)

lemma settled_decoded:
  assumes "a < length hp" and "readAsDataURL pf (hp ! a) = Some url"
    and "decode pf url = Some (w, h)"
  shows "settled pf (Ref a) ms hp
           = \<lparr>heap = hp @ [new_File (toBlob pf (sized_canvas (default_maxSize ms) w h)
                                  ''image/jpeg'' quality)
                                (fname (hp ! a)) ''image/jpeg'' (now pf)],
              promise = Fulfilled (length hp), queue = [],
              calls = [ReadAsDataURL a, SetSrc url,
                       CanvasSize (width (sized_canvas (default_maxSize ms) w h))
                                  (height (sized_canvas (default_maxSize ms) w h)),
                       DrawImage w h (width (sized_canvas (default_maxSize ms) w h))
                                     (height (sized_canvas (default_maxSize ms) w h)),
                       ToBlob (width (sized_canvas (default_maxSize ms) w h))
                              (height (sized_canvas (default_maxSize ms) w h))
                              ''image/jpeg'' quality,
                       NewFile (length hp), Resolve (length hp)]\<rparr>"
  using assms by (simp add: run_defs nth_append)

text \<open>Every run is one of the four above.\<close>

lemma settled_cases:
  obtains
    (not_a_file) "settled pf file ms hp
                    = \<lparr>heap = hp, promise = Rejected TypeError, queue = [], calls = []\<rparr>"
  | (unreadable) a where "file = Ref a" "a < length hp" "readAsDataURL pf (hp ! a) = None"
  | (undecodable) a url where "file = Ref a" "a < length hp"
      "readAsDataURL pf (hp ! a) = Some url" "decode pf url = None"
  | (decoded) a url w h where "file = Ref a" "a < length hp"
      "readAsDataURL pf (hp ! a) = Some url" "decode pf url = Some (w, h)"
proof (cases "file")
  case Undefined
  then show ?thesis
    using settled_not_a_file [of "file" hp pf ms] not_a_file by simp
next
  case (Ref a)
  show ?thesis
  proof (cases "a < length hp")
    case False
    then show ?thesis
      using settled_not_a_file [of "file" hp pf ms] not_a_file Ref by simp
  next
    case True
    show ?thesis
    proof (cases "readAsDataURL pf (hp ! a)")
      case None
      then show ?thesis using unreadable Ref True by simp
    next
      case (Some url)
      show ?thesis
      proof (cases "decode pf url")
        case None
        then show ?thesis using undecodable Ref True Some by simp
      next
        case (Some wh)
        then show ?thesis
          using decoded Ref True \<open>readAsDataURL pf (hp ! a) = Some url\<close> by (cases wh) simp
      qed
    qed
  qed
qed

subsection \<open>Sample computations\<close>

lemmas canvas_eval =
  sized_canvas_def scale_def js_round_def createElement_canvas_def set_width_def set_height_def
  to_unsigned_long_def reflect_unsigned_long_def fl_eval

lemma canvas_2000x1000_at_512: "sized_canvas (Fin 512) 2000 1000 = \<lparr>width = 512, height = 256\<rparr>"
  by (simp add: canvas_eval)



lemma canvas_22x11_at_15: "sized_canvas (Fin 15) 22 11 = \<lparr>width = 14, height = 7\<rparr>"
  by (simp add: canvas_eval)

lemma canvas_3x2_at_4: "sized_canvas (Fin 4) 3 2 = \<lparr>width = 4, height = 2\<rparr>"
  by (simp add: canvas_eval)

lemma canvas_1000x1_at_10: "sized_canvas (Fin 10) 1000 1 = \<lparr>width = 10, height = 0\<rparr>"
  by (simp add: canvas_eval)

lemma quality_value: "quality = Fin (3152519739159347 / 4503599627370496)"
  by (simp add: quality_def fl_eval)

lemma example_platform_simps [simp]:
  "readAsDataURL (example_platform d) f = Some ''data:image/png;base64,iVBORw==''"
  "decode (example_platform d) u = d"
  "encodable (example_platform d) cw ch = True"
  "now (example_platform d) = 1700000000000"
  by (simp_all add: example_platform_def)

lemma example_run:
  "settled (example_platform (Some (w, h))) (Ref 0) ms [example_file]
     = \<lparr>heap = [example_file,
                new_File (toBlob (example_platform (Some (w, h)))
                            (sized_canvas (default_maxSize ms) w h) ''image/jpeg'' quality)
                  ''receipt.png'' ''image/jpeg'' 1700000000000],
        promise = Fulfilled 1, queue = [],
        calls = [ReadAsDataURL 0, SetSrc ''data:image/png;base64,iVBORw=='',
                 CanvasSize (width (sized_canvas (default_maxSize ms) w h))
                            (height (sized_canvas (default_maxSize ms) w h)),
                 DrawImage w h (width (sized_canvas (default_maxSize ms) w h))
                               (height (sized_canvas (default_maxSize ms) w h)),
                 ToBlob (width (sized_canvas (default_maxSize ms) w h))
                        (height (sized_canvas (default_maxSize ms) w h))
                        ''image/jpeg'' quality,
                 NewFile 1, Resolve 1]\<rparr>"
  using settled_decoded [of 0 "[example_file]" "example_platform (Some (w, h))"
      "''data:image/png;base64,iVBORw==''" w h ms]
  by (simp add: example_file_def)

lemma example_dimensions:
  "resolved_dimensions (settled (example_platform (Some (w, h))) (Ref 0) ms [example_file])
     = (let c = sized_canvas (default_maxSize ms) w h
        in if width c = 0 \<or> height c = 0 then None else Some (width c, height c))"
  by (simp add: example_run resolved_dimensions_def resolved_file_def deref_def new_File_def
      toBlob_def dimensions_def Let_def)


lemma floor_between:
  fixes r :: rat and m :: int
  assumes "0 \<le> r" and "r < of_int m + 1"
  shows "int (nat \<lfloor>r\<rfloor>) \<le> m" and "of_int m - 1 < r \<Longrightarrow> m - 1 \<le> int (nat \<lfloor>r\<rfloor>)"
proof -
  have lo: "0 \<le> \<lfloor>r\<rfloor>"
    using assms(1) by simp
  have "r < of_int (m + 1)"
    using assms(2) by simp
  then have "\<lfloor>r\<rfloor> < m + 1"
    by (simp only: floor_less_iff)
  then show "int (nat \<lfloor>r\<rfloor>) \<le> m"
    using lo by simp
  show "m - 1 \<le> int (nat \<lfloor>r\<rfloor>)" if "of_int m - 1 < r"
  proof -
    have "of_int (m - 1) \<le> r"
      using that by simp
    then have "m - 1 \<le> \<lfloor>r\<rfloor>"
      by (simp only: le_floor_iff)
    then show ?thesis
      using lo by simp
  qed
qed

lemma canvas_sides:
  fixes m :: int
  assumes m: "1 \<le> m" "m < 2 ^ 31" and M: "1 \<le> max w h" "w < 2 ^ 32" "h < 2 ^ 32"
  shows "int (width (sized_canvas (Fin (of_int m)) w h)) \<le> m"
    and "int (height (sized_canvas (Fin (of_int m)) w h)) \<le> m"
    and "m - 1 \<le> int (max (width (sized_canvas (Fin (of_int m)) w h))
                          (height (sized_canvas (Fin (of_int m)) w h)))"
proof -
  define s :: rat where "s = fl (of_int m / of_nat (max w h))"
  define c where "c = sized_canvas (Fin (of_int m)) w h"
  have c: "width c = nat \<lfloor>fl (of_nat w * s)\<rfloor>" "height c = nat \<lfloor>fl (of_nat h * s)\<rfloor>"
    by (simp_all add: c_def s_def sized_canvas_in_range [OF m M])
  have M': "max w h < 2 ^ 32"
    using M by simp
  have bw: "0 \<le> fl (of_nat w * s)" "fl (of_nat w * s) < of_int m + 1"
    using product_bounds(1,2) [OF m M(1) M', of w] by (simp_all add: s_def)
  have bh: "0 \<le> fl (of_nat h * s)" "fl (of_nat h * s) < of_int m + 1"
    using product_bounds(1,2) [OF m M(1) M', of h] by (simp_all add: s_def)
  show w_le: "int (width (sized_canvas (Fin (of_int m)) w h)) \<le> m"
    using floor_between(1) [OF bw] c(1) by (simp add: c_def)
  show h_le: "int (height (sized_canvas (Fin (of_int m)) w h)) \<le> m"
    using floor_between(1) [OF bh] c(2) by (simp add: c_def)
  have "m - 1 \<le> int (max (width c) (height c))"
  proof (cases "h \<le> w")
    case True
    then have "w = max w h" by simp
    then have "of_int m - 1 < fl (of_nat w * s)"
      using product_bounds(3) [OF m M(1) M', of w] by (simp add: s_def)
    then have "m - 1 \<le> int (width c)"
      using floor_between(2) [OF bw] c(1) by simp
    then show ?thesis by simp
  next
    case False
    then have "h = max w h" by simp
    then have "of_int m - 1 < fl (of_nat h * s)"
      using product_bounds(3) [OF m M(1) M', of h] by (simp add: s_def)
    then have "m - 1 \<le> int (height c)"
      using floor_between(2) [OF bh] c(2) by simp
    then show ?thesis by simp
  qed
  then show "m - 1 \<le> int (max (width (sized_canvas (Fin (of_int m)) w h))
                          (height (sized_canvas (Fin (of_int m)) w h)))"
    by (simp add: c_def)
qed



lemma canvas_2000x1000_at_minus_512:
  "sized_canvas (Fin (- 512)) 2000 1000 = \<lparr>width = 300, height = 150\<rparr>"
  by (simp add: canvas_eval)

text \<open>What a decoded image resolves with, in terms of the canvas.\<close>

lemma resolved_decoded:
  assumes "a < length hp" and "readAsDataURL pf (hp ! a) = Some url"
    and "decode pf url = Some (w, h)"
  shows "resolved_file (settled pf (Ref a) ms hp) =
           Some \<lparr>fname = fname (hp ! a), ftype = ''image/jpeg'', lastModified = now pf,
                  fbody = (if 0 < width (sized_canvas (default_maxSize ms) w h)
                              \<and> 0 < height (sized_canvas (default_maxSize ms) w h)
                              \<and> encodable pf (width (sized_canvas (default_maxSize ms) w h))
                                    (height (sized_canvas (default_maxSize ms) w h))
                           then Picture (width (sized_canvas (default_maxSize ms) w h))
                                  (height (sized_canvas (default_maxSize ms) w h))
                                  ''image/jpeg'' quality
                           else Text ''null'')\<rparr>"
    and "resolved_dimensions (settled pf (Ref a) ms hp) =
           (if 0 < width (sized_canvas (default_maxSize ms) w h)
               \<and> 0 < height (sized_canvas (default_maxSize ms) w h)
               \<and> encodable pf (width (sized_canvas (default_maxSize ms) w h))
                     (height (sized_canvas (default_maxSize ms) w h))
            then Some (width (sized_canvas (default_maxSize ms) w h),
                       height (sized_canvas (default_maxSize ms) w h))
            else None)"
  by (simp_all add: settled_decoded [OF assms] resolved_dimensions_def resolved_file_def
      deref_def new_File_def toBlob_def dimensions_def)

section \<open>The concrete scenario\<close>

text \<open>
  C7. A decodable 2000\<times>1000 source image and \<open>maxDimension = 512\<close> (given, or by
  default): the promise is resolved with an image of exactly 512\<times>256, provided the
  browser can serialise a bitmap of that size.
\<close>

theorem scenario_2000x1000_at_512:
  assumes "a < length hp"
    and "readAsDataURL pf (hp ! a) = Some url"
    and "decode pf url = Some (2000, 1000)"
    and "encodable pf 512 256"
    and "default_maxSize ms = Fin 512"
  shows "promise (settled pf (Ref a) ms hp) = Fulfilled (length hp)
         \<and> resolved_dimensions (settled pf (Ref a) ms hp) = Some (512, 256)"
  using assms
  by (simp add: settled_decoded [OF assms(1,2,3)] canvas_2000x1000_at_512
      resolved_dimensions_def resolved_file_def deref_def new_File_def toBlob_def dimensions_def)

theorem scenario_2000x1000_at_512_witness:
  "0 < length [example_file]
   \<and> readAsDataURL (example_platform (Some (2000, 1000))) ([example_file] ! 0)
       = Some ''data:image/png;base64,iVBORw==''
   \<and> decode (example_platform (Some (2000, 1000))) ''data:image/png;base64,iVBORw==''
       = Some (2000, 1000)
   \<and> encodable (example_platform (Some (2000, 1000))) 512 256
   \<and> default_maxSize None = Fin 512
   \<and> promise (settled (example_platform (Some (2000, 1000))) (Ref 0) None [example_file])
       = Fulfilled (length [example_file])
   \<and> resolved_dimensions
         (settled (example_platform (Some (2000, 1000))) (Ref 0) None [example_file])
       = Some (512, 256)"
  using scenario_2000x1000_at_512 [of 0 "[example_file]" "example_platform (Some (2000, 1000))"
      "''data:image/png;base64,iVBORw==''" None]
  by (simp add: default_maxSize_def)


section \<open>The size of the rendering surface\<close>

text \<open>
  C2 as stated: the canvas is allocated \<open>round(w*scale)\<close> by \<open>round(h*scale)\<close>. It is
  not: a 3\<times>2 image with \<open>maxDimension = 4\<close> has \<open>h*scale = 8/3\<close>, which rounds to 3,
  and the canvas is 2 high. Assigning a Number to \<^verbatim>\<open>canvas.height\<close> truncates it.
\<close>

theorem surface_is_not_rounded:
  "width (sized_canvas (Fin 4) 3 2) = 4 \<and> height (sized_canvas (Fin 4) 3 2) = 2
   \<and> spec_surface 4 3 2 = (4, 3)"
  by (simp add: canvas_3x2_at_4 spec_surface_def round_def)

text \<open>
  C2 as amended: for an integer \<open>maxDimension\<close> from 0 to \<open>2^31 - 1\<close> and an image with a
  non-zero side, the canvas width and height are the integer parts (truncation, not
  rounding) of the binary64 products \<open>w*scale\<close> and \<open>h*scale\<close>, where \<open>scale\<close> is the
  binary64 quotient \<open>maxDimension / max(w, h)\<close>; neither side exceeds \<open>maxDimension\<close>.
\<close>

theorem surface_is_truncated:
  fixes m :: int
  assumes "0 \<le> m" and "m < 2 ^ 31" and "1 \<le> max w h" and "w < 2 ^ 32" and "h < 2 ^ 32"
  shows "sized_canvas (Fin (of_int m)) w h =
           \<lparr>width = nat \<lfloor>fl (of_nat w * fl (of_int m / of_nat (max w h)))\<rfloor>,
            height = nat \<lfloor>fl (of_nat h * fl (of_int m / of_nat (max w h)))\<rfloor>\<rparr>
         \<and> int (width (sized_canvas (Fin (of_int m)) w h)) \<le> m
         \<and> int (height (sized_canvas (Fin (of_int m)) w h)) \<le> m"
proof (cases "m = 0")
  case True
  then show ?thesis
    by (simp add: sized_canvas_zero)
next
  case False
  then have m1: "1 \<le> m"
    using assms(1) by simp
  show ?thesis
    using sized_canvas_in_range [OF m1 assms(2-5)] canvas_sides(1,2) [OF m1 assms(2-5)]
    by simp
qed

theorem surface_is_truncated_witness:
  "(0::int) \<le> 4 \<and> (4::int) < 2 ^ 31 \<and> (1::nat) \<le> max 3 2 \<and> (3::nat) < 2 ^ 32 \<and> (2::nat) < 2 ^ 32
   \<and> sized_canvas (Fin (of_int 4)) 3 2 =
         \<lparr>width = nat \<lfloor>fl (of_nat 3 * fl (of_int 4 / of_nat (max 3 2)))\<rfloor>,
          height = nat \<lfloor>fl (of_nat 2 * fl (of_int 4 / of_nat (max 3 2)))\<rfloor>\<rparr>
   \<and> int (width (sized_canvas (Fin (of_int 4)) 3 2)) \<le> 4
   \<and> int (height (sized_canvas (Fin (of_int 4)) 3 2)) \<le> 4"
  using surface_is_truncated [of 4 3 2] by (simp add: fl_eval)

text \<open>
  C4 as stated: for a decodable image with \<open>max(w, h) > maxDimension\<close> the output of a
  successful call has its larger side within one pixel of \<open>maxDimension\<close>. Two calls
  that resolve show otherwise. A 1000\<times>1 image with \<open>maxDimension = 10\<close> gets a canvas
  of height 0 and resolves with a file that holds no image at all. A 2000\<times>1000 image
  with \<open>maxDimension = -512\<close> gets negative canvas attributes, which fall back to the
  defaults, and resolves with an image of 300\<times>150.
\<close>

theorem resolved_output_may_miss_maxDimension:
  "promise (settled (example_platform (Some (1000, 1))) (Ref 0) (Some (Fin 10)) [example_file])
     = Fulfilled 1
   \<and> resolved_dimensions
       (settled (example_platform (Some (1000, 1))) (Ref 0) (Some (Fin 10)) [example_file])
     = None
   \<and> promise
       (settled (example_platform (Some (2000, 1000))) (Ref 0) (Some (Fin (- 512))) [example_file])
     = Fulfilled 1
   \<and> resolved_dimensions
       (settled (example_platform (Some (2000, 1000))) (Ref 0) (Some (Fin (- 512))) [example_file])
     = Some (300, 150)"
proof -
  have "promise (settled (example_platform (Some (1000, 1))) (Ref 0) (Some (Fin 10))
          [example_file]) = Fulfilled 1"
    by (simp add: example_run)
  moreover have "resolved_dimensions
      (settled (example_platform (Some (1000, 1))) (Ref 0) (Some (Fin 10)) [example_file]) = None"
    by (simp add: example_dimensions default_maxSize_def canvas_1000x1_at_10 del: One_nat_def)
  moreover have "promise (settled (example_platform (Some (2000, 1000))) (Ref 0)
          (Some (Fin (- 512))) [example_file]) = Fulfilled 1"
    by (simp add: example_run)
  moreover have "resolved_dimensions
      (settled (example_platform (Some (2000, 1000))) (Ref 0) (Some (Fin (- 512)))
         [example_file]) = Some (300, 150)"
    by (simp add: example_dimensions default_maxSize_def canvas_2000x1000_at_minus_512)
  ultimately show ?thesis
    by simp
qed

text \<open>
  C4 as amended: for every decodable source image (sides below \<open>2^31\<close>) and every integer
  \<open>maxDimension \<ge> 1\<close> with \<open>max(w, h) > maxDimension\<close>, the canvas has its larger side
  equal to \<open>maxDimension\<close> or \<open>maxDimension - 1\<close> and the promise is resolved; the
  resolved file holds an image, of exactly the size of the canvas, when both sides of
  the canvas are non-zero and the encoder succeeds, and holds no image otherwise.
\<close>

theorem larger_side_within_one_pixel:
  fixes m :: int
  assumes "a < length hp"
    and "readAsDataURL pf (hp ! a) = Some url"
    and "decode pf url = Some (w, h)"
    and "w < 2 ^ 31" and "h < 2 ^ 31"
    and "1 \<le> m" and "m < int (max w h)"
    and "default_maxSize ms = Fin (of_int m)"
  shows "m - 1 \<le> int (max (width (sized_canvas (Fin (of_int m)) w h))
                         (height (sized_canvas (Fin (of_int m)) w h)))
         \<and> int (max (width (sized_canvas (Fin (of_int m)) w h))
                    (height (sized_canvas (Fin (of_int m)) w h))) \<le> m
         \<and> promise (settled pf (Ref a) ms hp) = Fulfilled (length hp)
         \<and> resolved_dimensions (settled pf (Ref a) ms hp) =
             (if 0 < width (sized_canvas (Fin (of_int m)) w h)
                 \<and> 0 < height (sized_canvas (Fin (of_int m)) w h)
                 \<and> encodable pf (width (sized_canvas (Fin (of_int m)) w h))
                       (height (sized_canvas (Fin (of_int m)) w h))
              then Some (width (sized_canvas (Fin (of_int m)) w h),
                         height (sized_canvas (Fin (of_int m)) w h))
              else None)"
proof -
  have "int (max w h) < 2 ^ 31"
    using assms(4,5) by simp
  then have m31: "m < 2 ^ 31"
    using assms(7) by linarith
  have M: "1 \<le> max w h"
    using assms(6,7) by linarith
  have w: "w < 2 ^ 32" and h: "h < 2 ^ 32"
    using assms(4,5) by simp_all
  have sides: "int (width (sized_canvas (Fin (of_int m)) w h)) \<le> m"
    "int (height (sized_canvas (Fin (of_int m)) w h)) \<le> m"
    "m - 1 \<le> int (max (width (sized_canvas (Fin (of_int m)) w h))
                       (height (sized_canvas (Fin (of_int m)) w h)))"
    using canvas_sides [OF assms(6) m31 M w h] by simp_all
  have p: "promise (settled pf (Ref a) ms hp) = Fulfilled (length hp)"
    by (simp add: settled_decoded [OF assms(1,2,3)])
  show ?thesis
    using sides p resolved_decoded(2) [OF assms(1,2,3), of ms]
    by (simp only: assms(8)) simp
qed

theorem larger_side_within_one_pixel_witness:
  "0 < length [example_file]
   \<and> readAsDataURL (example_platform (Some (22, 11))) ([example_file] ! 0)
       = Some ''data:image/png;base64,iVBORw==''
   \<and> decode (example_platform (Some (22, 11))) ''data:image/png;base64,iVBORw=='' = Some (22, 11)
   \<and> (22::nat) < 2 ^ 31 \<and> (11::nat) < 2 ^ 31 \<and> (1::int) \<le> 15 \<and> (15::int) < int (max 22 11)
   \<and> default_maxSize (Some (Fin 15)) = Fin (of_int 15)
   \<and> sized_canvas (Fin (of_int 15)) 22 11 = \<lparr>width = 14, height = 7\<rparr>
   \<and> (15::int) - 1 \<le> int (max 14 7) \<and> int (max 14 7) \<le> 15
   \<and> promise (settled (example_platform (Some (22, 11))) (Ref 0) (Some (Fin 15)) [example_file])
       = Fulfilled (length [example_file])
   \<and> resolved_dimensions
         (settled (example_platform (Some (22, 11))) (Ref 0) (Some (Fin 15)) [example_file])
       = Some (14, 7)"
  using larger_side_within_one_pixel [of 0 "[example_file]" "example_platform (Some (22, 11))"
      "''data:image/png;base64,iVBORw==''" 22 11 15 "Some (Fin 15)"]
  by (simp add: default_maxSize_def canvas_22x11_at_15)





section \<open>Failures\<close>

text \<open>
  C1 as stated: an input that does not decode makes the promise reject. It does not: the
  image fires \<^verbatim>\<open>error\<close>, nothing listens, and the promise is still pending when no
  callback is left to run.
\<close>

theorem undecodable_input_is_not_rejected:
  "decode (example_platform None) ''data:image/png;base64,iVBORw=='' = None
   \<and> promise (settled (example_platform None) (Ref 0) None [example_file]) = Pending
   \<and> queue (settled (example_platform None) (Ref 0) None [example_file]) = []
   \<and> promise (settled (example_platform None) (Ref 0) None [example_file]) \<noteq> Rejected TypeError"
  using settled_undecodable [of 0 "[example_file]" "example_platform None"
      "''data:image/png;base64,iVBORw==''" None]
  by simp

text \<open>
  C1 as amended: for every input file whose bytes cannot be decoded as a raster image the
  promise never settles. It is neither rejected nor resolved: it is pending when the
  event loop has run out of callbacks, no exception was thrown, and no file was created.
\<close>

theorem undecodable_input_stays_pending:
  assumes "a < length hp"
    and "readAsDataURL pf (hp ! a) = Some url"
    and "decode pf url = None"
  shows "promise (settled pf (Ref a) ms hp) = Pending
         \<and> queue (settled pf (Ref a) ms hp) = []
         \<and> heap (settled pf (Ref a) ms hp) = hp
         \<and> resolved_file (settled pf (Ref a) ms hp) = None"
  by (simp add: settled_undecodable [OF assms] resolved_file_def)

theorem undecodable_input_stays_pending_witness:
  "0 < length [example_file]
   \<and> readAsDataURL (example_platform None) ([example_file] ! 0)
       = Some ''data:image/png;base64,iVBORw==''
   \<and> decode (example_platform None) ''data:image/png;base64,iVBORw=='' = None
   \<and> promise (settled (example_platform None) (Ref 0) (Some (Fin 512)) [example_file]) = Pending
   \<and> queue (settled (example_platform None) (Ref 0) (Some (Fin 512)) [example_file]) = []
   \<and> heap (settled (example_platform None) (Ref 0) (Some (Fin 512)) [example_file])
       = [example_file]
   \<and> resolved_file (settled (example_platform None) (Ref 0) (Some (Fin 512)) [example_file])
       = None"
  using undecodable_input_stays_pending [of 0 "[example_file]" "example_platform None"
      "''data:image/png;base64,iVBORw==''" "Some (Fin 512)"]
  by simp

text \<open>
  C3 as stated: \<open>maxDimension = 0\<close> makes the promise reject. It does not: the canvas is
  0\<times>0, \<^verbatim>\<open>toBlob\<close> passes \<^verbatim>\<open>null\<close>, the callback wraps it in a File and resolves.
\<close>

theorem zero_maxSize_is_not_rejected:
  "promise (settled (example_platform (Some (2000, 1000))) (Ref 0) (Some (Fin 0)) [example_file])
     = Fulfilled 1
   \<and> promise (settled (example_platform (Some (2000, 1000))) (Ref 0) (Some (Fin 0)) [example_file])
     \<noteq> Rejected TypeError
   \<and> resolved_dimensions
       (settled (example_platform (Some (2000, 1000))) (Ref 0) (Some (Fin 0)) [example_file])
     = None"
proof -
  have "promise (settled (example_platform (Some (2000, 1000))) (Ref 0) (Some (Fin 0))
          [example_file]) = Fulfilled 1"
    by (simp add: example_run)
  moreover have "resolved_dimensions
      (settled (example_platform (Some (2000, 1000))) (Ref 0) (Some (Fin 0)) [example_file])
      = None"
    by (simp add: example_dimensions default_maxSize_def sized_canvas_zero)
  ultimately show ?thesis
    by simp
qed

text \<open>
  C3 as amended: with \<open>maxDimension = 0\<close> on any decodable source image the rendering
  surface is 0\<times>0 and cannot be serialised (\<^verbatim>\<open>toBlob\<close> passes \<^verbatim>\<open>null\<close>); the promise
  settles as resolved, not as rejected, with a File that has the source's name and the
  type image/jpeg and carries no image.
\<close>

theorem zero_maxSize_resolves_without_image:
  assumes "a < length hp"
    and "readAsDataURL pf (hp ! a) = Some url"
    and "decode pf url = Some (w, h)"
  shows "sized_canvas (Fin 0) w h = \<lparr>width = 0, height = 0\<rparr>
         \<and> toBlob pf (sized_canvas (Fin 0) w h) ''image/jpeg'' quality = None
         \<and> promise (settled pf (Ref a) (Some (Fin 0)) hp) = Fulfilled (length hp)
         \<and> resolved_file (settled pf (Ref a) (Some (Fin 0)) hp)
             = Some \<lparr>fname = fname (hp ! a), ftype = ''image/jpeg'', lastModified = now pf,
                     fbody = Text ''null''\<rparr>
         \<and> resolved_dimensions (settled pf (Ref a) (Some (Fin 0)) hp) = None"
  by (simp add: settled_decoded [OF assms] default_maxSize_def sized_canvas_zero toBlob_def
      resolved_dimensions_def resolved_file_def deref_def new_File_def dimensions_def)

theorem zero_maxSize_resolves_without_image_witness:
  "0 < length [example_file]
   \<and> readAsDataURL (example_platform (Some (640, 480))) ([example_file] ! 0)
       = Some ''data:image/png;base64,iVBORw==''
   \<and> decode (example_platform (Some (640, 480))) ''data:image/png;base64,iVBORw==''
       = Some (640, 480)
   \<and> sized_canvas (Fin 0) 640 480 = \<lparr>width = 0, height = 0\<rparr>
   \<and> toBlob (example_platform (Some (640, 480))) (sized_canvas (Fin 0) 640 480)
         ''image/jpeg'' quality = None
   \<and> promise (settled (example_platform (Some (640, 480))) (Ref 0) (Some (Fin 0)) [example_file])
       = Fulfilled (length [example_file])
   \<and> resolved_file
         (settled (example_platform (Some (640, 480))) (Ref 0) (Some (Fin 0)) [example_file])
       = Some \<lparr>fname = fname ([example_file] ! 0), ftype = ''image/jpeg'',
               lastModified = now (example_platform (Some (640, 480))), fbody = Text ''null''\<rparr>
   \<and> resolved_dimensions
         (settled (example_platform (Some (640, 480))) (Ref 0) (Some (Fin 0)) [example_file])
       = None"
  using zero_maxSize_resolves_without_image [of 0 "[example_file]"
      "example_platform (Some (640, 480))" "''data:image/png;base64,iVBORw==''" 640 480]
  by (simp add: sized_canvas_zero toBlob_def)

text \<open>
  C5 as stated: the promise never rejects, and a decode or encode failure leaves it
  pending. The second half fails for an encode failure: a 1000\<times>1 image with
  \<open>maxSize = 10\<close> gets a canvas of height 0, \<^verbatim>\<open>toBlob\<close> passes \<^verbatim>\<open>null\<close>, and the
  promise is resolved.
\<close>

theorem encode_failure_is_not_pending:
  "toBlob (example_platform (Some (1000, 1))) (sized_canvas (Fin 10) 1000 1)
     ''image/jpeg'' quality = None
   \<and> promise (settled (example_platform (Some (1000, 1))) (Ref 0) (Some (Fin 10)) [example_file])
     = Fulfilled 1
   \<and> promise (settled (example_platform (Some (1000, 1))) (Ref 0) (Some (Fin 10)) [example_file])
     \<noteq> Pending"
proof -
  have "toBlob (example_platform (Some (1000, 1))) (sized_canvas (Fin 10) 1000 1)
          ''image/jpeg'' quality = None"
    unfolding canvas_1000x1_at_10 by (simp add: toBlob_def)
  moreover have "promise (settled (example_platform (Some (1000, 1))) (Ref 0) (Some (Fin 10))
          [example_file]) = Fulfilled 1"
    by (simp add: example_run)
  ultimately show ?thesis
    by simp
qed

text \<open>
  C5 as amended: for every call with a File argument the returned promise never settles
  as rejected, since the executor has no rejection path. A failed read or decode leaves
  the promise pending forever; once the image has decoded the promise is always
  resolved, also when the encoder fails. (An argument that is not a Blob is another
  matter: \<open>settled_not_a_file\<close> shows the rejection.)
\<close>

theorem file_argument_never_rejects:
  assumes "a < length hp"
  shows "promise (settled pf (Ref a) ms hp) =
           (case readAsDataURL pf (hp ! a) of
              None \<Rightarrow> Pending
            | Some url \<Rightarrow>
                (case decode pf url of None \<Rightarrow> Pending | Some wh \<Rightarrow> Fulfilled (length hp)))
         \<and> promise (settled pf (Ref a) ms hp) \<noteq> Rejected e
         \<and> queue (settled pf (Ref a) ms hp) = []"
proof (cases "readAsDataURL pf (hp ! a)")
  case None
  then show ?thesis
    by (simp add: settled_unreadable [OF assms])
next
  case (Some url)
  show ?thesis
  proof (cases "decode pf url")
    case None
    then show ?thesis
      using Some by (simp add: settled_undecodable [OF assms])
  next
    case (Some wh)
    obtain w h where "wh = (w, h)"
      by (cases wh)
    then show ?thesis
      using Some \<open>readAsDataURL pf (hp ! a) = Some url\<close>
      by (simp add: settled_decoded [OF assms])
  qed
qed

theorem file_argument_never_rejects_witness:
  "0 < length [example_file]
   \<and> promise (settled (example_platform None) (Ref 0) None [example_file]) =
       (case readAsDataURL (example_platform None) ([example_file] ! 0) of
          None \<Rightarrow> Pending
        | Some url \<Rightarrow>
            (case decode (example_platform None) url of
               None \<Rightarrow> Pending
             | Some wh \<Rightarrow> Fulfilled (length [example_file])))
   \<and> promise (settled (example_platform None) (Ref 0) None [example_file]) \<noteq> Rejected TypeError
   \<and> queue (settled (example_platform None) (Ref 0) None [example_file]) = []"
  using file_argument_never_rejects [of 0 "[example_file]" "example_platform None" None TypeError]
  by simp

section \<open>The output file, the promise and the source file\<close>

text \<open>
  C8 as stated: the resolved file has the type image/jpeg and is encoded at quality
  0.7. The type is as stated; the content need not be an encoding. A 1000\<times>1 image
  with \<open>maxSize = 10\<close> gets a canvas of height 0, \<^verbatim>\<open>toBlob\<close> passes \<^verbatim>\<open>null\<close>, and the
  promise is resolved with a file of type image/jpeg whose content is the text
  \<^verbatim>\<open>null\<close>.
\<close>

theorem resolved_file_may_hold_no_encoding:
  "resolved_file
     (settled (example_platform (Some (1000, 1))) (Ref 0) (Some (Fin 10)) [example_file])
     = Some \<lparr>fname = ''receipt.png'', ftype = ''image/jpeg'', lastModified = 1700000000000,
             fbody = Text ''null''\<rparr>"
proof -
  have c: "sized_canvas (default_maxSize (Some (Fin 10))) 1000 1 = \<lparr>width = 10, height = 0\<rparr>"
    by (simp only: default_maxSize_def option.case canvas_1000x1_at_10)
  show ?thesis
    using resolved_decoded(1) [of 0 "[example_file]" "example_platform (Some (1000, 1))"
        "''data:image/png;base64,iVBORw==''" 1000 1 "Some (Fin 10)"]
    unfolding c by (simp add: example_file_def)
qed

text \<open>
  C8 as amended: for every input file, whatever its format and its type, the file the
  promise is resolved with has the type image/jpeg, and the call has asked the encoder
  exactly once, for image/jpeg at the quality the literal \<^verbatim>\<open>0.7\<close> denotes. The content
  of the file is that encoding of the canvas when both sides of the canvas are non-zero
  and the encoder succeeds, and the text \<^verbatim>\<open>null\<close> otherwise.
\<close>

theorem output_is_jpeg_at_fixed_quality:
  assumes "resolved_file (settled pf arg ms hp) = Some f"
  shows "ftype f = ''image/jpeg''
         \<and> encode_requests (calls (settled pf arg ms hp)) = [(''image/jpeg'', quality)]
         \<and> quality = Fin (fl (7 / 10))
         \<and> (\<exists>cw ch. CanvasSize cw ch \<in> set (calls (settled pf arg ms hp))
               \<and> fbody f = (if 0 < cw \<and> 0 < ch \<and> encodable pf cw ch
                            then Picture cw ch ''image/jpeg'' quality
                            else Text ''null''))"
proof (cases rule: settled_cases [of pf arg ms hp])
  case not_a_file
  then show ?thesis
    using assms by (simp add: resolved_file_def)
next
  case (unreadable a)
  then show ?thesis
    using assms by (simp add: settled_unreadable resolved_file_def)
next
  case (undecodable a url)
  then show ?thesis
    using assms by (simp add: settled_undecodable resolved_file_def)
next
  case (decoded a url w h)
  have f: "f = \<lparr>fname = fname (hp ! a), ftype = ''image/jpeg'', lastModified = now pf,
                 fbody = (if 0 < width (sized_canvas (default_maxSize ms) w h)
                             \<and> 0 < height (sized_canvas (default_maxSize ms) w h)
                             \<and> encodable pf (width (sized_canvas (default_maxSize ms) w h))
                                   (height (sized_canvas (default_maxSize ms) w h))
                          then Picture (width (sized_canvas (default_maxSize ms) w h))
                                 (height (sized_canvas (default_maxSize ms) w h))
                                 ''image/jpeg'' quality
                          else Text ''null'')\<rparr>"
    using assms resolved_decoded(1) [OF decoded(2,3,4), of ms] decoded(1) by simp
  have "CanvasSize (width (sized_canvas (default_maxSize ms) w h))
          (height (sized_canvas (default_maxSize ms) w h))
        \<in> set (calls (settled pf arg ms hp))"
    using decoded by (simp add: settled_decoded)
  moreover have "fbody f =
      (if 0 < width (sized_canvas (default_maxSize ms) w h)
          \<and> 0 < height (sized_canvas (default_maxSize ms) w h)
          \<and> encodable pf (width (sized_canvas (default_maxSize ms) w h))
                (height (sized_canvas (default_maxSize ms) w h))
       then Picture (width (sized_canvas (default_maxSize ms) w h))
              (height (sized_canvas (default_maxSize ms) w h)) ''image/jpeg'' quality
       else Text ''null'')"
    by (simp add: f)
  ultimately have "\<exists>cw ch. CanvasSize cw ch \<in> set (calls (settled pf arg ms hp))
      \<and> fbody f = (if 0 < cw \<and> 0 < ch \<and> encodable pf cw ch
                   then Picture cw ch ''image/jpeg'' quality else Text ''null'')"
    by blast
  moreover have "ftype f = ''image/jpeg''"
    by (simp add: f)
  moreover have "encode_requests (calls (settled pf arg ms hp)) = [(''image/jpeg'', quality)]"
    using decoded by (simp add: settled_decoded)
  moreover have "quality = Fin (fl (7 / 10))"
    by (rule quality_def)
  ultimately show ?thesis
    by blast
qed

theorem output_is_jpeg_at_fixed_quality_witness:
  "resolved_file
     (settled (example_platform (Some (2000, 1000))) (Ref 0) (Some (Fin 512)) [example_file])
     = Some \<lparr>fname = ''receipt.png'', ftype = ''image/jpeg'', lastModified = 1700000000000,
             fbody = Picture 512 256 ''image/jpeg'' quality\<rparr>
   \<and> ftype \<lparr>fname = ''receipt.png'', ftype = ''image/jpeg'', lastModified = 1700000000000,
             fbody = Picture 512 256 ''image/jpeg'' quality\<rparr> = ''image/jpeg''
   \<and> encode_requests
         (calls (settled (example_platform (Some (2000, 1000))) (Ref 0) (Some (Fin 512))
                   [example_file]))
       = [(''image/jpeg'', quality)]
   \<and> quality = Fin (fl (7 / 10))
   \<and> CanvasSize 512 256
       \<in> set (calls (settled (example_platform (Some (2000, 1000))) (Ref 0) (Some (Fin 512))
                        [example_file]))
   \<and> encodable (example_platform (Some (2000, 1000))) 512 256"
proof -
  have r: "resolved_file
     (settled (example_platform (Some (2000, 1000))) (Ref 0) (Some (Fin 512)) [example_file])
     = Some \<lparr>fname = ''receipt.png'', ftype = ''image/jpeg'', lastModified = 1700000000000,
             fbody = Picture 512 256 ''image/jpeg'' quality\<rparr>"
    by (simp add: example_run default_maxSize_def canvas_2000x1000_at_512 resolved_file_def
        deref_def new_File_def toBlob_def)
  have c: "CanvasSize 512 256
       \<in> set (calls (settled (example_platform (Some (2000, 1000))) (Ref 0) (Some (Fin 512))
                        [example_file]))"
    by (simp add: example_run default_maxSize_def canvas_2000x1000_at_512)
  show ?thesis
    using r c output_is_jpeg_at_fixed_quality [OF r] by simp
qed

lemma run_task_keeps_settlement:
  "promise s \<noteq> Pending \<Longrightarrow> promise (run_task pf t s) = promise s"
  by (cases t)
    (simp_all add: log_def enqueue_def resolve_def deref_def Let_def
      split: option.splits prod.splits)

text \<open>
  C9. The code calls the resolving function at most once in a call; a callback never
  changes a promise that has settled; a call that resolves has created exactly one new
  file, the one it resolves with, and a call that does not has created none. When the
  event loop stops no callback is left, so nothing settles the promise later.
\<close>

theorem promise_settles_at_most_once:
  "length (filter is_Resolve (calls (settled pf arg ms hp))) \<le> 1
   \<and> (case promise (settled pf arg ms hp) of
         Fulfilled a \<Rightarrow>
           a = length hp
           \<and> heap (settled pf arg ms hp) = hp @ [heap (settled pf arg ms hp) ! a]
           \<and> filter is_Resolve (calls (settled pf arg ms hp)) = [Resolve a]
       | _ \<Rightarrow>
           heap (settled pf arg ms hp) = hp
           \<and> filter is_Resolve (calls (settled pf arg ms hp)) = [])
   \<and> queue (settled pf arg ms hp) = []
   \<and> (promise s \<noteq> Pending \<longrightarrow> promise (run_task pf t s) = promise s)"
proof (cases rule: settled_cases [of pf arg ms hp])
  case not_a_file
  then show ?thesis
    by (simp add: run_task_keeps_settlement)
next
  case (unreadable a)
  then show ?thesis
    by (simp add: settled_unreadable run_task_keeps_settlement)
next
  case (undecodable a url)
  then show ?thesis
    by (simp add: settled_undecodable run_task_keeps_settlement)
next
  case (decoded a url w h)
  then show ?thesis
    by (simp add: settled_decoded run_task_keeps_settlement)
qed

theorem promise_settles_at_most_once_witness:
  "promise \<lparr>heap = [example_file, example_file], promise = Fulfilled 1, queue = [], calls = []\<rparr>
     \<noteq> Pending
   \<and> promise (run_task (example_platform (Some (2000, 1000)))
        (BlobCallback \<lparr>c_file = 0, c_maxSize = Fin 512\<rparr> None)
        \<lparr>heap = [example_file, example_file], promise = Fulfilled 1, queue = [], calls = []\<rparr>)
     = Fulfilled 1
   \<and> length (filter is_Resolve
         (calls (settled (example_platform (Some (2000, 1000))) (Ref 0) None [example_file])))
       \<le> 1"
  using promise_settles_at_most_once [where pf = "example_platform (Some (2000, 1000))"
      and arg = "Ref 0" and ms = None and hp = "[example_file]"
      and s = "\<lparr>heap = [example_file, example_file], promise = Fulfilled 1, queue = [],
                calls = []\<rparr>"
      and t = "BlobCallback \<lparr>c_file = 0, c_maxSize = Fin 512\<rparr> None"]
  by simp

text \<open>
  C10. The call reads the caller's file and never writes it: every file that existed
  before the call, the source among them, is the same afterwards (name, type, time
  stamp and content), whether the promise was resolved, rejected or left pending.
\<close>

theorem source_file_is_not_modified:
  assumes "a < length hp"
  shows "heap (settled pf arg ms hp) ! a = hp ! a
         \<and> take (length hp) (heap (settled pf arg ms hp)) = hp
         \<and> deref (settled pf arg ms hp) a = Some (hp ! a)"
proof (cases rule: settled_cases [of pf arg ms hp])
  case not_a_file
  then show ?thesis
    using assms by (simp add: deref_def)
next
  case (unreadable b)
  then show ?thesis
    using assms by (simp add: settled_unreadable deref_def)
next
  case (undecodable b url)
  then show ?thesis
    using assms by (simp add: settled_undecodable deref_def)
next
  case (decoded b url w h)
  then show ?thesis
    using assms by (simp add: settled_decoded deref_def nth_append)
qed

theorem source_file_is_not_modified_witness:
  "0 < length [example_file]
   \<and> heap (settled (example_platform (Some (2000, 1000))) (Ref 0) None [example_file]) ! 0
       = [example_file] ! 0
   \<and> take (length [example_file])
         (heap (settled (example_platform (Some (2000, 1000))) (Ref 0) None [example_file]))
       = [example_file]
   \<and> deref (settled (example_platform (Some (2000, 1000))) (Ref 0) None [example_file]) 0
       = Some ([example_file] ! 0)"
  using source_file_is_not_modified [of 0 "[example_file]" "example_platform (Some (2000, 1000))"
      "Ref 0" None]
  by simp

end
